theory Spec2Isabelle
  imports Complex_Main "HOL-Library.AList"
begin

section \<open>Data model\<close>

text \<open>
  \<^verbatim>\<open>interface Plane\<close> of \<^verbatim>\<open>src/App.tsx\<close>. The reconciliation code copies the
  numeric fields and never computes with them, so the record is parametric in the
  type \<open>'n\<close> of a numeric field: the same definitions then cover every value the
  decoded JSON can hold in such a field at run time (a finite number, a non-finite
  one, or nothing at all), which the TypeScript annotation does not check.
\<close>

record 'n Plane =
  hex :: string
  flight :: string
  lat :: 'n
  lon :: 'n
  altitude :: 'n
  track :: 'n
  speed :: 'n
  active :: bool

text \<open>
  A JavaScript number, as far as the code distinguishes its values: the finite ones
  (idealised as reals: rounding and overflow are not modelled), the two infinities
  and NaN.
\<close>

datatype number = Finite real | PosInfinity | NegInfinity | NaN

fun isNaN :: "number \<Rightarrow> bool" where
  "isNaN NaN = True"
| "isNaN _ = False"

text \<open>The comparison \<^verbatim>\<open>x >= y\<close>: false as soon as one side is NaN.\<close>

fun number_ge :: "number \<Rightarrow> number \<Rightarrow> bool" where
  "number_ge NaN _ = False"
| "number_ge _ NaN = False"
| "number_ge (Finite x) (Finite y) = (x \<ge> y)"
| "number_ge PosInfinity _ = True"
| "number_ge _ NegInfinity = True"
| "number_ge _ PosInfinity = False"
| "number_ge NegInfinity _ = False"

section \<open>The built-in Map\<close>

text \<open>
  A JavaScript \<^verbatim>\<open>Map\<close> keeps its entries in insertion order; \<^verbatim>\<open>set\<close> on a key
  that is present replaces the value where the entry stands, and on a new key appends
  an entry. \<^verbatim>\<open>new Map(entries)\<close> sets the entries one after the other, starting from
  the empty map.
\<close>

fun Map_set :: "('k \<times> 'v) list \<Rightarrow> 'k \<Rightarrow> 'v \<Rightarrow> ('k \<times> 'v) list" where
  "Map_set [] k v = [(k, v)]"
| "Map_set ((k', v') # m) k v = (if k' = k then (k, v) # m else (k', v') # Map_set m k v)"

definition new_Map :: "('k \<times> 'v) list \<Rightarrow> ('k \<times> 'v) list" where
  "new_Map entries = foldl (\<lambda>m (k, v). Map_set m k v) [] entries"

section \<open>Reconciling a poll into the tracked state\<close>

text \<open>
  The updater passed to \<^verbatim>\<open>setPlanes\<close> in \<^verbatim>\<open>fetchData\<close>. \<open>planeMap\<close> is the local
  \<^verbatim>\<open>planeMap\<close> after both \<^verbatim>\<open>forEach\<close> loops: built from the previous array, then
  every plane of the feed set under its hex with \<^verbatim>\<open>active: true\<close>, then every
  entry whose key is not in \<^verbatim>\<open>dataHexSet\<close> replaced by a copy with
  \<^verbatim>\<open>active: false\<close>. \<open>setPlanes\<close> is the updater's result,
  \<^verbatim>\<open>Array.from(planeMap.values())\<close>.
\<close>

definition planeMap :: "'n Plane list \<Rightarrow> 'n Plane list \<Rightarrow> (string \<times> 'n Plane) list" where
  "planeMap prevPlanes data =
     (let dataHexSet = set (map hex data);
          planeMap0 = new_Map (map (\<lambda>p. (hex p, p)) prevPlanes);
          planeMap1 = foldl (\<lambda>m plane. Map_set m (hex plane) (plane\<lparr>active := True\<rparr>)) planeMap0 data
      in map (\<lambda>(h, plane). if h \<notin> dataHexSet then (h, plane\<lparr>active := False\<rparr>) else (h, plane)) planeMap1)"

definition setPlanes :: "'n Plane list \<Rightarrow> 'n Plane list \<Rightarrow> 'n Plane list" where
  "setPlanes prevPlanes data = map snd (planeMap prevPlanes data)"

text \<open>
  The updater passed to \<^verbatim>\<open>setPlaneTrails\<close>. The trails object is a plain object:
  \<^verbatim>\<open>{ ...prev }\<close> copies the own properties of the previous one (the finite map
  below), and a lookup \<^verbatim>\<open>updated[key]\<close> that finds no own property goes on to
  \<^verbatim>\<open>Object.prototype\<close>. \<open>objectPrototypeNames\<close> lists the property names found
  there (the language standard's, with its annex for browsers). Each of them yields a
  function, or for \<^verbatim>\<open>__proto__\<close> the prototype object itself: a value that is truthy
  and not iterable.
\<close>

datatype error = TypeError

definition objectPrototypeNames :: "string list" where
  "objectPrototypeNames =
     [''constructor'', ''__defineGetter__'', ''__defineSetter__'', ''hasOwnProperty'',
      ''__lookupGetter__'', ''__lookupSetter__'', ''isPrototypeOf'', ''propertyIsEnumerable'',
      ''toString'', ''valueOf'', ''__proto__'', ''toLocaleString'']"

text \<open>
  The \<^verbatim>\<open>forEach\<close> over the feed, on the copy \<^verbatim>\<open>updated\<close>. For one plane:
  \<^item> the key has an own trail: \<^verbatim>\<open>!updated[key]\<close> is false (an array, even an empty
    one, is truthy) and the trail becomes the old one followed by the new point;
  \<^item> the key has no own trail and is not an inherited name: the lookup is
    \<^verbatim>\<open>undefined\<close>, the trail is created empty and the new point appended;
  \<^item> the key has no own trail and is an inherited name: \<^verbatim>\<open>!updated[key]\<close> is false,
    and spreading the inherited value in \<^verbatim>\<open>[...updated[key], newPoint]\<close> throws a
    TypeError, which ends the loop and the updater.
  The comment \<^verbatim>\<open>// keep last 20 positions\<close> stands before a plain assignment of the
  whole trail: nothing is dropped.
\<close>

fun trailsForEach ::
  "(string \<rightharpoonup> ('n \<times> 'n) list) \<Rightarrow> 'n Plane list \<Rightarrow> error + (string \<rightharpoonup> ('n \<times> 'n) list)" where
  "trailsForEach updated [] = Inr updated"
| "trailsForEach updated (plane # rest) =
     (let key = hex plane;
          newPoint = (lat plane, lon plane)
      in case updated key of
           Some existing \<Rightarrow> trailsForEach (updated(key \<mapsto> existing @ [newPoint])) rest
         | None \<Rightarrow>
             if key \<in> set objectPrototypeNames then Inl TypeError
             else trailsForEach (updated(key \<mapsto> [] @ [newPoint])) rest)"

definition setPlaneTrails ::
  "(string \<rightharpoonup> ('n \<times> 'n) list) \<Rightarrow> 'n Plane list \<Rightarrow> error + (string \<rightharpoonup> ('n \<times> 'n) list)" where
  "setPlaneTrails prev data = trailsForEach prev data"

text \<open>
  The two state cells the poll writes, with their \<^verbatim>\<open>useState\<close> initial values.
\<close>

record 'n AppState =
  planes :: "'n Plane list"
  planeTrails :: "string \<rightharpoonup> ('n \<times> 'n) list"

definition initialState :: "'n AppState" where
  "initialState = \<lparr>planes = [], planeTrails = Map.empty\<rparr>"

text \<open>
  \<open>update\<close> is the body of the \<^verbatim>\<open>try\<close> block once the feed is decoded: each cell
  takes what its own updater returns. An updater that throws returns nothing, so its
  cell keeps the value it had.

  \<open>fetchData\<close> is one poll. The request or the JSON decoding may throw, and the
  \<^verbatim>\<open>catch\<close> then only logs and leaves the state as it was. A decoded array is handed
  to the updaters; when the trails updater throws, the exception arises where the
  framework runs the updater, and the poll is reported as \<open>Threw\<close>, apart from both the
  logged failure and the applied batch. (A decoded value that is not an array of objects
  is outside the model.)
\<close>

definition update :: "'n AppState \<Rightarrow> 'n Plane list \<Rightarrow> 'n AppState" where
  "update st data =
     st\<lparr>planes := setPlanes (planes st) data,
        planeTrails := (case setPlaneTrails (planeTrails st) data of
                          Inr updated \<Rightarrow> updated
                        | Inl e \<Rightarrow> planeTrails st)\<rparr>"

datatype 'n response = FetchError | Json "'n Plane list"

datatype outcome = Applied | Logged | Threw error

definition fetchData :: "'n AppState \<Rightarrow> 'n response \<Rightarrow> outcome \<times> 'n AppState" where
  "fetchData st res =
     (case res of
        FetchError \<Rightarrow> (Logged, st)
      | Json data \<Rightarrow>
          (case setPlaneTrails (planeTrails st) data of
             Inr updated \<Rightarrow> (Applied, update st data)
           | Inl e \<Rightarrow> (Threw e, update st data)))"

section \<open>The poll interval\<close>

text \<open>
  \<^verbatim>\<open>useState<number>(500)\<close> and \<^verbatim>\<open>handleIntervalChange\<close>. The conversion
  \<^verbatim>\<open>Number(e.target.value)\<close> is the language's own; it is a parameter here, so that
  every result holds whatever a string converts to.
\<close>

definition initialInterval :: number where
  "initialInterval = Finite 500"

definition handleIntervalChange :: "(string \<Rightarrow> number) \<Rightarrow> number \<Rightarrow> string \<Rightarrow> number" where
  "handleIntervalChange toNumber updateInterval targetValue =
     (let v = toNumber targetValue
      in if \<not> isNaN v \<and> number_ge v (Finite 100) then v else updateInterval)"

section \<open>Vocabulary of the properties\<close>

text \<open>
  The entries of a tracked array under a hex, the trail recorded for a hex (empty when
  there is none), and the last plane of a list with a given hex.
\<close>

definition trackedEntries :: "'n Plane list \<Rightarrow> string \<Rightarrow> 'n Plane list" where
  "trackedEntries ps h = filter (\<lambda>p. hex p = h) ps"

definition trailOf :: "(string \<rightharpoonup> ('n \<times> 'n) list) \<Rightarrow> string \<Rightarrow> ('n \<times> 'n) list" where
  "trailOf trails h = (case trails h of None \<Rightarrow> [] | Some t \<Rightarrow> t)"

definition latest :: "string \<Rightarrow> 'n Plane list \<Rightarrow> 'n Plane option" where
  "latest h ps = find (\<lambda>p. hex p = h) (rev ps)"

text \<open>
  A decoded snapshot whose numeric fields may be absent (\<open>None\<close>). It is malformed, in
  the specification's sense, when a numeric field is missing or its latitude or
  longitude is not finite (\<open>isFinite\<close> holds of the finite numbers only).
\<close>

fun isFinite :: "number \<Rightarrow> bool" where
  "isFinite (Finite _) = True"
| "isFinite _ = False"

definition malformed :: "number option Plane \<Rightarrow> bool" where
  "malformed s \<longleftrightarrow>
     (case lat s of None \<Rightarrow> True | Some x \<Rightarrow> \<not> isFinite x) \<or>
     (case lon s of None \<Rightarrow> True | Some x \<Rightarrow> \<not> isFinite x) \<or>
     altitude s = None \<or> track s = None \<or> speed s = None"

subsection \<open>Sample feed data\<close>

definition snapA1 :: "real Plane" where
  "snapA1 = \<lparr>hex = ''A1'', flight = ''UAL1 '', lat = 40, lon = - 75,
             altitude = 10000, track = 90, speed = 400, active = False\<rparr>"

definition snapA1_later :: "real Plane" where
  "snapA1_later = \<lparr>hex = ''A1'', flight = ''UAL1 '', lat = 401 / 10, lon = - 75,
             altitude = 10500, track = 92, speed = 410, active = False\<rparr>"

definition snapB2 :: "real Plane" where
  "snapB2 = \<lparr>hex = ''B2'', flight = ''DAL7'', lat = 39, lon = - 74,
             altitude = 32000, track = 270, speed = 450, active = False\<rparr>"

definition infiniteLat :: "number option Plane" where
  "infiniteLat = \<lparr>hex = ''C3'', flight = ''BAD1'', lat = Some PosInfinity, lon = Some (Finite (- 75)),
             altitude = Some (Finite 1000), track = Some (Finite 10), speed = Some (Finite 200),
             active = False\<rparr>"

definition missingSpeed :: "number option Plane" where
  "missingSpeed = \<lparr>hex = ''D4'', flight = ''BAD2'', lat = Some (Finite 40), lon = Some (Finite (- 75)),
             altitude = Some (Finite 1000), track = Some (Finite 10), speed = None,
             active = False\<rparr>"

definition sampleNumber :: "string \<Rightarrow> number" where
  "sampleNumber s =
     (if s = ''250'' then Finite 250
      else if s = ''50'' then Finite 50
      else NaN)"

section \<open>Facts about the Map operations\<close>

lemma Map_set_update: "Map_set m k v = AList.update k v m"
  by (induction m) auto

lemma Map_set_keys:
  "map fst (Map_set m k v) = (if k \<in> set (map fst m) then map fst m else map fst m @ [k])"
  by (simp add: Map_set_update update_keys)

lemma Map_set_distinct: "distinct (map fst m) \<Longrightarrow> distinct (map fst (Map_set m k v))"
  by (simp add: Map_set_update distinct_update)

lemma Map_set_map_of: "map_of (Map_set m k v) = (map_of m)(k \<mapsto> v)"
  by (simp add: Map_set_update update_conv')

lemma Map_set_fresh: "k \<notin> fst ` set m \<Longrightarrow> Map_set m k v = m @ [(k, v)]"
  unfolding Map_set_update by (induction m) auto

lemma foldl_set_distinct:
  "distinct (map fst m) \<Longrightarrow> distinct (map fst (foldl (\<lambda>m x. Map_set m (f x) (g x)) m xs))"
  by (induction xs arbitrary: m) (simp_all add: Map_set_distinct)

lemma foldl_set_keys_set:
  "fst ` set (foldl (\<lambda>m x. Map_set m (f x) (g x)) m xs) = fst ` set m \<union> f ` set xs"
proof (induction xs arbitrary: m)
  case Nil
  show ?case by simp
next
  case (Cons x xs)
  have "fst ` set (Map_set m (f x) (g x)) = insert (f x) (fst ` set m)"
    by (simp add: Map_set_update dom_update)
  with Cons show ?case by auto
qed

lemma foldl_set_keys_same:
  "f ` set xs \<subseteq> fst ` set m \<Longrightarrow> map fst (foldl (\<lambda>m x. Map_set m (f x) (g x)) m xs) = map fst m"
proof (induction xs arbitrary: m)
  case Nil
  show ?case by simp
next
  case (Cons x xs)
  have k: "map fst (Map_set m (f x) (g x)) = map fst m"
    using Cons.prems by (simp add: Map_set_keys)
  then have "fst ` set (Map_set m (f x) (g x)) = fst ` set m"
    by (metis list.set_map)
  with Cons.prems have "f ` set xs \<subseteq> fst ` set (Map_set m (f x) (g x))" by simp
  from Cons.IH [OF this] k show ?case by simp
qed

lemma foldl_set_map_of:
  "map_of (foldl (\<lambda>m x. Map_set m (f x) (g x)) m xs) = map_of m ++ map_of (rev (map (\<lambda>x. (f x, g x)) xs))"
proof (induction xs arbitrary: m)
  case Nil
  show ?case by simp
next
  case (Cons x xs)
  show ?case
    by (simp add: Cons.IH Map_set_map_of map_add_upd_left fun_eq_iff map_add_def split: option.splits)
qed

lemma foldl_set_fresh:
  "distinct (map fst (m @ es)) \<Longrightarrow> foldl (\<lambda>m x. Map_set m (fst x) (snd x)) m es = m @ es"
proof (induction es arbitrary: m)
  case Nil
  show ?case by simp
next
  case (Cons e es)
  from Cons.prems have "fst e \<notin> fst ` set m" by auto
  then have s: "Map_set m (fst e) (snd e) = m @ [e]" by (simp add: Map_set_fresh)
  from Cons.prems have "distinct (map fst ((m @ [e]) @ es))" by simp
  from Cons.IH [OF this] s show ?case by simp
qed

lemma alist_eqI:
  "distinct (map fst xs) \<Longrightarrow> map fst xs = map fst ys \<Longrightarrow> map_of xs = map_of ys \<Longrightarrow> xs = ys"
proof (induction xs arbitrary: ys)
  case Nil
  then show ?case by simp
next
  case (Cons x xs)
  then obtain y ys' where ys: "ys = y # ys'" by (cases ys) auto
  from Cons.prems ys have k: "fst x = fst y" and ks: "map fst xs = map fst ys'" by auto
  from Cons.prems(3) ys have eq: "map_of (x # xs) = map_of (y # ys')" by (simp only:)
  have "map_of (x # xs) (fst x) = map_of (y # ys') (fst x)" by (rule fun_cong [OF eq])
  with k have v: "snd x = snd y" by (cases x; cases y) simp
  have "map_of xs = map_of ys'"
  proof
    fix a
    show "map_of xs a = map_of ys' a"
    proof (cases "a = fst x")
      case True
      with Cons.prems(1) have "a \<notin> fst ` set xs" by auto
      moreover from this ks have "a \<notin> fst ` set ys'" by (metis list.set_map)
      ultimately have "map_of xs a = None" and "map_of ys' a = None"
        by (simp_all add: map_of_eq_None_iff)
      then show ?thesis by simp
    next
      case False
      have "map_of (x # xs) a = map_of (y # ys') a" by (rule fun_cong [OF eq])
      with False k show ?thesis by (cases x; cases y) (simp split: if_splits)
    qed
  qed
  with Cons.IH [of ys'] Cons.prems(1) ks have "xs = ys'" by simp
  with k v ys show ?case by (cases x; cases y) simp
qed

lemma Map_set_subset: "set (Map_set m k v) \<subseteq> insert (k, v) (set m)"
  unfolding Map_set_update by (induction m) auto

lemma foldl_set_pres:
  "\<forall>(k, v) \<in> set m. P k v \<Longrightarrow> \<forall>x \<in> set xs. P (f x) (g x)
   \<Longrightarrow> \<forall>(k, v) \<in> set (foldl (\<lambda>m x. Map_set m (f x) (g x)) m xs). P k v"
proof (induction xs arbitrary: m)
  case Nil
  then show ?case by simp
next
  case (Cons x xs)
  have "\<forall>(k, v) \<in> set (Map_set m (f x) (g x)). P k v"
    using Cons.prems Map_set_subset [of m "f x" "g x"] by auto
  moreover have "\<forall>y \<in> set xs. P (f y) (g y)" using Cons.prems by simp
  ultimately show ?case using Cons.IH by simp
qed

lemma map_of_keyed:
  "map_of (map (\<lambda>p. (f p, g p)) xs) h = map_option g (find (\<lambda>p. f p = h) xs)"
  by (induction xs) auto

lemma map_of_mark:
  "map_of (map (\<lambda>(k, v). if c k then (k, F v) else (k, v)) m) h
     = map_option (\<lambda>v. if c h then F v else v) (map_of m h)"
  by (induction m) auto

lemma filter_values:
  "distinct (map fst m) \<Longrightarrow> \<forall>(k, v) \<in> set m. f v = k
   \<Longrightarrow> filter (\<lambda>p. f p = h) (map snd m) = (case map_of m h of None \<Rightarrow> [] | Some p \<Rightarrow> [p])"
proof (induction m)
  case Nil
  show ?case by simp
next
  case (Cons e m)
  obtain k v where e: "e = (k, v)" by (cases e)
  from Cons.prems e have fv: "f v = k" and nk: "k \<notin> fst ` set m" by auto
  from Cons.prems have ih: "filter (\<lambda>p. f p = h) (map snd m) = (case map_of m h of None \<Rightarrow> [] | Some p \<Rightarrow> [p])"
    by (intro Cons.IH) auto
  show ?case
  proof (cases "k = h")
    case True
    with nk have "map_of m h = None" by (simp add: map_of_eq_None_iff)
    with ih True e fv show ?thesis by simp
  next
    case False
    with ih e fv show ?thesis by simp
  qed
qed


lemma new_Map_fold: "new_Map es = foldl (\<lambda>m x. Map_set m (fst x) (snd x)) [] es"
  by (simp add: new_Map_def case_prod_unfold)

lemma new_Map_distinct: "distinct (map fst (new_Map es))"
  unfolding new_Map_fold by (rule foldl_set_distinct) simp

lemma new_Map_keys: "fst ` set (new_Map es) = fst ` set es"
  unfolding new_Map_fold by (simp add: foldl_set_keys_set)

lemma new_Map_map_of: "map_of (new_Map es) = map_of (rev es)"
  unfolding new_Map_fold by (simp add: foldl_set_map_of)

lemma new_Map_id: "distinct (map fst es) \<Longrightarrow> new_Map es = es"
  unfolding new_Map_fold using foldl_set_fresh [of "[]" es] by simp

lemma planeMap_distinct: "distinct (map fst (planeMap prev data))"
proof -
  have "distinct (map fst (foldl (\<lambda>m plane. Map_set m (hex plane) (plane\<lparr>active := True\<rparr>))
          (new_Map (map (\<lambda>p. (hex p, p)) prev)) data))"
    by (rule foldl_set_distinct) (rule new_Map_distinct)
  then show ?thesis
    by (simp add: planeMap_def Let_def case_prod_beta o_def if_distrib [of fst] cong: if_cong)
qed

lemma planeMap_keys: "fst ` set (planeMap prev data) = hex ` set prev \<union> hex ` set data"
proof -
  have "fst ` set (planeMap prev data)
      = fst ` set (foldl (\<lambda>m plane. Map_set m (hex plane) (plane\<lparr>active := True\<rparr>))
          (new_Map (map (\<lambda>p. (hex p, p)) prev)) data)"
    by (force simp: planeMap_def Let_def split: if_splits)
  also have "\<dots> = fst ` set (new_Map (map (\<lambda>p. (hex p, p)) prev)) \<union> hex ` set data"
    by (rule foldl_set_keys_set)
  also have "\<dots> = hex ` set prev \<union> hex ` set data"
    by (simp add: new_Map_keys image_image)
  finally show ?thesis .
qed

lemma planeMap_keyed: "\<forall>(k, v) \<in> set (planeMap prev data). hex v = k"
proof -
  have "\<forall>(k, v) \<in> set (new_Map (map (\<lambda>p. (hex p, p)) prev)). hex v = k"
    unfolding new_Map_fold by (rule foldl_set_pres) auto
  then have "\<forall>(k, v) \<in> set (foldl (\<lambda>m plane. Map_set m (hex plane) (plane\<lparr>active := True\<rparr>))
          (new_Map (map (\<lambda>p. (hex p, p)) prev)) data). hex v = k"
    by (rule foldl_set_pres) simp
  then show ?thesis
    by (auto simp: planeMap_def Let_def split: if_splits)
qed

lemma planeMap_map_of:
  "map_of (planeMap prev data) h =
     (if h \<in> hex ` set data then map_option (\<lambda>p. p\<lparr>active := True\<rparr>) (latest h data)
      else map_option (\<lambda>p. p\<lparr>active := False\<rparr>) (latest h prev))"
proof -
  let ?m0 = "new_Map (map (\<lambda>p. (hex p, p)) prev)"
  let ?m1 = "foldl (\<lambda>m plane. Map_set m (hex plane) (plane\<lparr>active := True\<rparr>)) ?m0 data"
  have m0: "map_of ?m0 h = latest h prev"
    using map_of_keyed [of hex "\<lambda>p. p" "rev prev" h]
    by (simp add: new_Map_map_of rev_map latest_def option.map_ident)
  have new: "map_of (rev (map (\<lambda>x. (hex x, x\<lparr>active := True\<rparr>)) data)) h
               = map_option (\<lambda>p. p\<lparr>active := True\<rparr>) (latest h data)"
    using map_of_keyed [of hex "\<lambda>p. p\<lparr>active := True\<rparr>" "rev data" h]
    by (simp add: rev_map latest_def)
  have m1: "map_of ?m1 h = (case latest h data of None \<Rightarrow> latest h prev
                            | Some p \<Rightarrow> Some (p\<lparr>active := True\<rparr>))"
    by (simp add: foldl_set_map_of map_add_def new m0 split: option.splits)
  have in_data: "h \<in> hex ` set data \<longleftrightarrow> latest h data \<noteq> None"
    by (auto simp: latest_def find_None_iff)
  have "map_of (planeMap prev data) h
          = map_option (\<lambda>v. if h \<notin> hex ` set data then v\<lparr>active := False\<rparr> else v) (map_of ?m1 h)"
    unfolding planeMap_def Let_def
    using map_of_mark [of "\<lambda>k. k \<notin> hex ` set data" "\<lambda>v. v\<lparr>active := False\<rparr>" ?m1 h]
    by simp
  then show ?thesis
    using m1 in_data by (auto split: option.splits)
qed

lemma setPlanes_entries:
  "trackedEntries (setPlanes prev data) h =
     (if h \<in> hex ` set data
      then (case latest h data of None \<Rightarrow> [] | Some p \<Rightarrow> [p\<lparr>active := True\<rparr>])
      else (case latest h prev of None \<Rightarrow> [] | Some p \<Rightarrow> [p\<lparr>active := False\<rparr>]))"
  unfolding trackedEntries_def setPlanes_def
  by (simp add: filter_values [OF planeMap_distinct planeMap_keyed] planeMap_map_of split: option.splits)

lemma setPlanes_distinct: "distinct (map hex (setPlanes prev data))"
proof -
  have "map hex (setPlanes prev data) = map fst (planeMap prev data)"
    using planeMap_keyed [of prev data] by (auto simp: setPlanes_def)
  then show ?thesis by (simp add: planeMap_distinct)
qed

lemma setPlanes_hexes: "hex ` set (setPlanes prev data) = hex ` set prev \<union> hex ` set data"
proof -
  have "map hex (setPlanes prev data) = map fst (planeMap prev data)"
    using planeMap_keyed [of prev data] by (auto simp: setPlanes_def)
  then have "set (map hex (setPlanes prev data)) = set (map fst (planeMap prev data))" by simp
  then show ?thesis by (simp add: planeMap_keys)
qed


lemma find_filter_hd: "find P xs = (case filter P xs of [] \<Rightarrow> None | x # _ \<Rightarrow> Some x)"
  by (induction xs) auto

lemma latest_entries:
  "latest h ps = (case rev (trackedEntries ps h) of [] \<Rightarrow> None | x # _ \<Rightarrow> Some x)"
  by (simp add: latest_def trackedEntries_def find_filter_hd rev_filter)

lemma find_SomeD: "find P xs = Some x \<Longrightarrow> x \<in> set xs \<and> P x"
  by (induction xs) (auto split: if_splits)

lemma latest_mem: "latest h ps = Some p \<Longrightarrow> p \<in> set ps \<and> hex p = h"
  using find_SomeD [of "\<lambda>p. hex p = h" "rev ps" p] by (simp add: latest_def)

lemma latest_in_data: "h \<in> hex ` set data \<Longrightarrow> \<exists>s. latest h data = Some s"
  by (cases "latest h data") (auto simp: latest_def find_None_iff)

lemma find_app:
  "find P (xs @ ys) = (case find P xs of None \<Rightarrow> find P ys | Some x \<Rightarrow> Some x)"
  by (induction xs) auto

lemma latest_last:
  "hex s \<notin> hex ` set ys \<Longrightarrow> latest (hex s) (xs @ s # ys) = Some s"
proof -
  assume "hex s \<notin> hex ` set ys"
  then have "\<forall>p \<in> set ys. hex p \<noteq> hex s"
    by (metis imageI)
  then have "find (\<lambda>p. hex p = hex s) (rev ys) = None"
    by (simp add: find_None_iff)
  then show ?thesis
    by (simp add: latest_def find_app)
qed

lemma setPlanes_idem: "setPlanes (setPlanes prev data) data = setPlanes prev data"
proof -
  let ?M = "planeMap prev data"
  let ?R = "setPlanes prev data"
  let ?m1 = "foldl (\<lambda>m plane. Map_set m (hex plane) (plane\<lparr>active := True\<rparr>)) ?M data"
  have "map ((\<lambda>p. (hex p, p)) \<circ> snd) ?M = ?M"
    by (rule map_idI) (use planeMap_keyed [of prev data] in auto)
  then have keyed: "map (\<lambda>p. (hex p, p)) ?R = ?M"
    by (simp add: setPlanes_def)
  have m0: "new_Map (map (\<lambda>p. (hex p, p)) ?R) = ?M"
    by (simp add: keyed new_Map_id planeMap_distinct)
  have "hex ` set data \<subseteq> fst ` set ?M" by (simp add: planeMap_keys)
  then have k1: "map fst ?m1 = map fst ?M" by (rule foldl_set_keys_same)
  have unfold: "planeMap ?R data =
      map (\<lambda>(h, plane). if h \<notin> set (map hex data) then (h, plane\<lparr>active := False\<rparr>) else (h, plane)) ?m1"
    by (simp add: planeMap_def [of ?R data] Let_def m0)
  have keys: "map fst (planeMap ?R data) = map fst ?M"
    unfolding unfold using k1 by (simp add: case_prod_beta o_def if_distrib [of fst] cong: if_cong)
  have vals: "map_of (planeMap ?R data) = map_of ?M"
  proof
    fix h
    have "latest h ?R = (if h \<in> hex ` set data
            then map_option (\<lambda>p. p\<lparr>active := True\<rparr>) (latest h data)
            else map_option (\<lambda>p. p\<lparr>active := False\<rparr>) (latest h prev))"
      by (simp add: latest_entries [of h ?R] setPlanes_entries split: option.splits)
    then show "map_of (planeMap ?R data) h = map_of ?M h"
      by (simp add: planeMap_map_of option.map_comp o_def)
  qed
  have "planeMap ?R data = ?M"
    by (rule alist_eqI [OF planeMap_distinct keys vals])
  then show ?thesis by (simp add: setPlanes_def)
qed

lemma trailsForEach_result:
  "trailsForEach prev data = Inr t \<Longrightarrow>
   trailOf t h = trailOf prev h @ map (\<lambda>p. (lat p, lon p)) (filter (\<lambda>p. hex p = h) data)"
proof (induction data arbitrary: prev)
  case Nil
  then show ?case by simp
next
  case (Cons plane rest)
  show ?case
  proof (cases "prev (hex plane)")
    case None
    with Cons.prems have plain: "hex plane \<notin> set objectPrototypeNames"
      and run: "trailsForEach (prev(hex plane \<mapsto> [(lat plane, lon plane)])) rest = Inr t"
      by (simp_all add: Let_def split: if_splits)
    from Cons.IH [OF run] None show ?thesis
      by (auto simp: trailOf_def)
  next
    case (Some existing)
    with Cons.prems
    have run: "trailsForEach (prev(hex plane \<mapsto> existing @ [(lat plane, lon plane)])) rest = Inr t"
      by (simp add: Let_def)
    from Cons.IH [OF run] Some show ?thesis
      by (auto simp: trailOf_def)
  qed
qed


lemma trailsForEach_plain:
  "\<forall>p \<in> set data. hex p \<notin> set objectPrototypeNames \<Longrightarrow> \<exists>t. trailsForEach prev data = Inr t"
proof (induction data arbitrary: prev)
  case Nil
  show ?case by simp
next
  case (Cons plane rest)
  then have plain: "hex plane \<notin> set objectPrototypeNames"
    and rest: "\<forall>p \<in> set rest. hex p \<notin> set objectPrototypeNames" by simp_all
  show ?case
  proof (cases "prev (hex plane)")
    case None
    from Cons.IH [OF rest] obtain t
      where "trailsForEach (prev(hex plane \<mapsto> [(lat plane, lon plane)])) rest = Inr t" ..
    with None plain show ?thesis by (simp add: Let_def)
  next
    case (Some existing)
    from Cons.IH [OF rest] obtain t
      where "trailsForEach (prev(hex plane \<mapsto> existing @ [(lat plane, lon plane)])) rest = Inr t" ..
    with Some show ?thesis by (simp add: Let_def)
  qed
qed

lemma update_trail_plain:
  assumes "\<forall>p \<in> set data. hex p \<notin> set objectPrototypeNames"
  shows "trailOf (planeTrails (update st data)) h =
           trailOf (planeTrails st) h @ map (\<lambda>p. (lat p, lon p)) (filter (\<lambda>p. hex p = h) data)"
proof -
  from trailsForEach_plain [OF assms] obtain t where t: "trailsForEach (planeTrails st) data = Inr t" ..
  then have "planeTrails (update st data) = t"
    by (simp add: update_def setPlaneTrails_def)
  with trailsForEach_result [OF t] show ?thesis by simp
qed


lemma fetchData_plain:
  assumes "\<forall>p \<in> set data. hex p \<notin> set objectPrototypeNames"
  shows "fetchData st (Json data) = (Applied, update st data)"
proof -
  from trailsForEach_plain [OF assms] obtain t where "trailsForEach (planeTrails st) data = Inr t" ..
  then show ?thesis by (simp add: fetchData_def setPlaneTrails_def)
qed


lemma updates_hexes:
  "hex ` set (planes (foldl update st batches)) =
     hex ` set (planes st) \<union> (\<Union>b \<in> set batches. hex ` set b)"
  by (induction batches arbitrary: st) (auto simp: update_def setPlanes_hexes)



section \<open>Evaluation rules for concrete feeds\<close>

lemmas reconcile_defs =
  update_def setPlanes_def planeMap_def new_Map_def setPlaneTrails_def objectPrototypeNames_def
  initialState_def trackedEntries_def trailOf_def Let_def

lemmas sample_defs =
  snapA1_def snapA1_later_def snapB2_def

text \<open>
  The specification's scenario: a first poll with A1, an empty poll, a poll with A1 moved.
\<close>

lemma scenario_three_polls:
  "planes (update initialState [snapA1]) = [snapA1\<lparr>active := True\<rparr>]"
  "planeTrails (update initialState [snapA1]) ''A1'' = Some [(40, - 75)]"
  "planes (update (update initialState [snapA1]) []) = [snapA1\<lparr>active := False\<rparr>]"
  "planeTrails (update (update initialState [snapA1]) []) ''A1'' = Some [(40, - 75)]"
  "planes (update (update (update initialState [snapA1]) []) [snapA1_later])
     = [snapA1_later\<lparr>active := True\<rparr>]"
  "planeTrails (update (update (update initialState [snapA1]) []) [snapA1_later]) ''A1''
     = Some [(40, - 75), (401 / 10, - 75)]"
  by (simp_all add: reconcile_defs sample_defs)

text \<open>
  A plane whose hex is an inherited property name: the trails updater throws, and the
  poll is neither logged nor applied.
\<close>

lemma inherited_hex_throws:
  "setPlaneTrails Map.empty [snapA1\<lparr>hex := ''constructor''\<rparr>] = Inl TypeError"
  "fst (fetchData initialState (Json [snapA1\<lparr>hex := ''toString''\<rparr>])) = Threw TypeError"
  "planeTrails (update initialState [snapA1\<lparr>hex := ''__proto__''\<rparr>]) = Map.empty"
  by (simp_all add: fetchData_def reconcile_defs sample_defs)

section \<open>Properties of the reconciliation\<close>

text \<open>
  C1. For every previous state and every batch, and every hex present in the batch:
  after \<open>update\<close> the tracked array holds exactly one entry for that hex; it is
  active, and its flight, lat, lon, altitude, track and speed are those of a snapshot
  of the batch with that hex.
\<close>

theorem update_present_active:
  assumes "h \<in> hex ` set data"
  shows "\<exists>s \<in> set data. hex s = h \<and>
           (\<exists>p. trackedEntries (planes (update st data)) h = [p] \<and> active p \<and> hex p = h \<and>
                flight p = flight s \<and> lat p = lat s \<and> lon p = lon s \<and>
                altitude p = altitude s \<and> track p = track s \<and> speed p = speed s)"
proof -
  from latest_in_data [OF assms] obtain s where s: "latest h data = Some s" ..
  then have mem: "s \<in> set data" "hex s = h" by (simp_all add: latest_mem)
  have "trackedEntries (planes (update st data)) h = [s\<lparr>active := True\<rparr>]"
    using assms s by (simp add: update_def setPlanes_entries)
  with mem show ?thesis by (intro bexI [of _ s]) auto
qed

theorem update_present_active_witness:
  "''A1'' \<in> hex ` set [snapB2, snapA1_later] \<and>
   (\<exists>s \<in> set [snapB2, snapA1_later]. hex s = ''A1'' \<and>
      (\<exists>p. trackedEntries (planes (update (update initialState [snapA1]) [snapB2, snapA1_later])) ''A1'' = [p] \<and>
           active p \<and> hex p = ''A1'' \<and>
           flight p = flight s \<and> lat p = lat s \<and> lon p = lon s \<and>
           altitude p = altitude s \<and> track p = track s \<and> speed p = speed s))"
proof -
  have h: "''A1'' \<in> hex ` set [snapB2, snapA1_later]"
    by (simp add: sample_defs)
  show ?thesis
    by (rule conjI [OF h update_present_active [OF h]])
qed

text \<open>
  C2. For every previous state and every batch, and every hex that was tracked before
  (with \<open>q\<close> its one entry) and is absent from the batch: after \<open>update\<close> the hex
  still has exactly one entry; it is inactive and its flight, lat, lon, altitude, track
  and speed are those of \<open>q\<close>. (Every array that \<open>setPlanes\<close> returns holds at most
  one entry per hex, by \<open>setPlanes_distinct\<close>, and so does the empty initial one.)
\<close>

theorem update_absent_inactive:
  assumes "trackedEntries (planes st) h = [q]" and "h \<notin> hex ` set data"
  shows "\<exists>p. trackedEntries (planes (update st data)) h = [p] \<and> \<not> active p \<and> hex p = hex q \<and>
           flight p = flight q \<and> lat p = lat q \<and> lon p = lon q \<and>
           altitude p = altitude q \<and> track p = track q \<and> speed p = speed q"
proof -
  from assms(1) have "latest h (planes st) = Some q"
    by (simp add: latest_entries)
  with assms(2) have "trackedEntries (planes (update st data)) h = [q\<lparr>active := False\<rparr>]"
    by (simp add: update_def setPlanes_entries)
  then show ?thesis by simp
qed

theorem update_absent_inactive_witness:
  "trackedEntries (planes (update initialState [snapA1])) ''A1'' = [snapA1\<lparr>active := True\<rparr>] \<and>
   ''A1'' \<notin> hex ` set [snapB2] \<and>
   (\<exists>p. trackedEntries (planes (update (update initialState [snapA1]) [snapB2])) ''A1'' = [p] \<and>
        \<not> active p \<and> hex p = hex (snapA1\<lparr>active := True\<rparr>) \<and>
        flight p = flight (snapA1\<lparr>active := True\<rparr>) \<and>
        lat p = lat (snapA1\<lparr>active := True\<rparr>) \<and> lon p = lon (snapA1\<lparr>active := True\<rparr>) \<and>
        altitude p = altitude (snapA1\<lparr>active := True\<rparr>) \<and>
        track p = track (snapA1\<lparr>active := True\<rparr>) \<and> speed p = speed (snapA1\<lparr>active := True\<rparr>))"
proof -
  have h1: "trackedEntries (planes (update initialState [snapA1])) ''A1'' = [snapA1\<lparr>active := True\<rparr>]"
    by (simp add: reconcile_defs sample_defs)
  have h2: "''A1'' \<notin> hex ` set [snapB2]"
    by (simp add: sample_defs)
  show ?thesis
    by (intro conjI h1 h2 update_absent_inactive [OF h1 h2])
qed

text \<open>
  C3. Starting from the empty state, after any sequence of batches the hexes of the
  tracked array are exactly the hexes occurring in some batch of the sequence; and one
  \<open>update\<close> never removes a tracked hex.
\<close>

theorem tracked_hexes_union:
  "hex ` set (planes (foldl update initialState batches)) = (\<Union>b \<in> set batches. hex ` set b) \<and>
   hex ` set (planes st) \<subseteq> hex ` set (planes (update st b))"
  by (simp add: updates_hexes) (simp add: initialState_def update_def setPlanes_hexes)

theorem tracked_hexes_union_witness:
  "hex ` set (planes (foldl update initialState [[snapA1], [], [snapB2, snapA1_later]])) = {''A1'', ''B2''} \<and>
   hex ` set (planes (update initialState [snapA1]))
     \<subseteq> hex ` set (planes (update (update initialState [snapA1]) []))"
  using tracked_hexes_union [of "[[snapA1], [], [snapB2, snapA1_later]]" "update initialState [snapA1]" "[]"]
  by (auto simp: sample_defs)



text \<open>
  C5 as stated fails: nothing validates a snapshot. A batch of two malformed snapshots
  (one with an infinite latitude, one without a speed) is applied like any other.
\<close>

theorem malformed_batch_counterexample:
  "malformed infiniteLat \<and> malformed missingSpeed \<and>
   fst (fetchData initialState (Json [infiniteLat, missingSpeed])) = Applied \<and>
   planes (snd (fetchData initialState (Json [infiniteLat, missingSpeed])))
     = [infiniteLat\<lparr>active := True\<rparr>, missingSpeed\<lparr>active := True\<rparr>] \<and>
   planes (snd (fetchData initialState (Json [infiniteLat, missingSpeed])))
     \<noteq> planes (initialState :: number option AppState) \<and>
   planeTrails (snd (fetchData initialState (Json [infiniteLat, missingSpeed]))) ''C3''
     = Some [(Some PosInfinity, Some (Finite (- 75)))] \<and>
   planeTrails (initialState :: number option AppState) ''C3'' = None"
  by (simp add: fetchData_def reconcile_defs malformed_def infiniteLat_def missingSpeed_def)

text \<open>
  C5, as the code has it. For every state and every batch holding a malformed snapshot
  \<open>s\<close> (no hex of the batch being a property name inherited from
  \<^verbatim>\<open>Object.prototype\<close>), the poll does not fail: the batch is applied, every hex of the
  batch is tracked afterwards (that of \<open>s\<close> too), and the trail of the hex of \<open>s\<close>
  is its previous trail followed by the (lat, lon) of the batch's snapshots with that
  hex, in the batch's order, that of \<open>s\<close> among them; so the state has changed. The
  state is left as it was only when the request or the decoding fails.
\<close>

theorem malformed_batch_applied:
  assumes "s \<in> set data" and "malformed s"
    and "\<forall>p \<in> set data. hex p \<notin> set objectPrototypeNames"
  shows "fst (fetchData st (Json data)) = Applied \<and>
         snd (fetchData st (Json data)) \<noteq> st \<and>
         hex ` set data \<subseteq> hex ` set (planes (snd (fetchData st (Json data)))) \<and>
         trailOf (planeTrails (snd (fetchData st (Json data)))) (hex s)
           = trailOf (planeTrails st) (hex s) @
             map (\<lambda>p. (lat p, lon p)) (filter (\<lambda>p. hex p = hex s) data) \<and>
         (lat s, lon s) \<in> set (map (\<lambda>p. (lat p, lon p)) (filter (\<lambda>p. hex p = hex s) data)) \<and>
         fetchData st FetchError = (Logged, st)"
proof -
  let ?st' = "snd (fetchData st (Json data))"
  have run: "fetchData st (Json data) = (Applied, update st data)"
    using assms(3) by (rule fetchData_plain)
  have tr: "trailOf (planeTrails ?st') (hex s)
              = trailOf (planeTrails st) (hex s) @
                map (\<lambda>p. (lat p, lon p)) (filter (\<lambda>p. hex p = hex s) data)"
    using assms(3) by (simp add: run update_trail_plain)
  have pt: "(lat s, lon s) \<in> set (map (\<lambda>p. (lat p, lon p)) (filter (\<lambda>p. hex p = hex s) data))"
    using assms(1) by force
  then have "map (\<lambda>p. (lat p, lon p)) (filter (\<lambda>p. hex p = hex s) data) \<noteq> []"
    by (metis empty_iff list.set(1))
  then have "trailOf (planeTrails ?st') (hex s) \<noteq> trailOf (planeTrails st) (hex s)"
    by (simp add: tr)
  then have changed: "?st' \<noteq> st" by auto
  have hexes: "hex ` set data \<subseteq> hex ` set (planes ?st')"
    by (simp add: run update_def setPlanes_hexes)
  have failed: "fetchData st FetchError = (Logged, st)"
    by (simp add: fetchData_def)
  have app: "fst (fetchData st (Json data)) = Applied" by (simp add: run)
  from app changed hexes tr pt failed show ?thesis by (intro conjI)
qed

theorem malformed_batch_applied_witness:
  "missingSpeed \<in> set [infiniteLat, missingSpeed] \<and> malformed missingSpeed \<and>
   (hex infiniteLat \<notin> set objectPrototypeNames \<and> hex missingSpeed \<notin> set objectPrototypeNames) \<and>
   fst (fetchData initialState (Json [infiniteLat, missingSpeed])) = Applied \<and>
   snd (fetchData initialState (Json [infiniteLat, missingSpeed])) \<noteq> initialState \<and>
   trailOf (planeTrails (snd (fetchData initialState (Json [infiniteLat, missingSpeed])))) ''D4''
     = [(Some (Finite 40), Some (Finite (- 75)))] \<and>
   fetchData (initialState :: number option AppState) FetchError = (Logged, initialState)"
proof -
  have h1: "missingSpeed \<in> set [infiniteLat, missingSpeed]" by simp
  have h2: "malformed missingSpeed" by (simp add: malformed_def missingSpeed_def)
  have n: "hex infiniteLat \<notin> set objectPrototypeNames" "hex missingSpeed \<notin> set objectPrototypeNames"
    by (simp_all add: infiniteLat_def missingSpeed_def objectPrototypeNames_def)
  then have h3: "\<forall>p \<in> set [infiniteLat, missingSpeed]. hex p \<notin> set objectPrototypeNames"
    by simp
  have f: "lat missingSpeed = Some (Finite 40)" "lon missingSpeed = Some (Finite (- 75))"
    "hex missingSpeed = ''D4''" "hex infiniteLat = ''C3''"
    by (simp_all add: missingSpeed_def infiniteLat_def)
  have z: "trailOf (planeTrails (initialState :: number option AppState)) ''D4'' = []"
    by (simp add: initialState_def trailOf_def)
  show ?thesis
    using h1 h2 n malformed_batch_applied [OF h1 h2 h3, of initialState] by (simp add: f z)
qed

text \<open>
  C6 as stated fails for a batch that holds a hex twice: from the empty state, two
  updates with such a batch leave four points on the trail, not two.
\<close>

theorem update_twice_counterexample:
  "''A1'' \<in> hex ` set [snapA1, snapA1_later] \<and>
   length (trailOf (planeTrails (initialState :: real AppState)) ''A1'') = 0 \<and>
   length (trailOf (planeTrails
      (update (update initialState [snapA1, snapA1_later]) [snapA1, snapA1_later])) ''A1'') = 4 \<and>
   length (trailOf (planeTrails
      (update (update initialState [snapA1, snapA1_later]) [snapA1, snapA1_later])) ''A1'')
     \<noteq> length (trailOf (planeTrails (initialState :: real AppState)) ''A1'') + 2"
  by (simp add: reconcile_defs sample_defs)

text \<open>
  C6, as the code has it. For every state and batch, a second \<open>update\<close> with the same
  batch leaves the tracked array as the first one made it, every entry of a hex of the
  batch still active; and, when no hex of the batch is a property name inherited from
  \<^verbatim>\<open>Object.prototype\<close>, the two updates add to the trail of every hex two points for
  each snapshot the batch holds for it: exactly two when the batch holds the hex once,
  none when it does not hold it.
\<close>

theorem update_twice:
  "planes (update (update st b) b) = planes (update st b) \<and>
   (\<forall>p \<in> set (planes (update (update st b) b)). hex p \<in> hex ` set b \<longrightarrow> active p) \<and>
   ((\<forall>p \<in> set b. hex p \<notin> set objectPrototypeNames) \<longrightarrow>
      length (trailOf (planeTrails (update (update st b) b)) h)
        = length (trailOf (planeTrails st) h) + 2 * length (filter (\<lambda>s. hex s = h) b))"
proof -
  have idem: "planes (update (update st b) b) = planes (update st b)"
    by (simp add: update_def setPlanes_idem)
  have act: "\<forall>p \<in> set (planes (update (update st b) b)). hex p \<in> hex ` set b \<longrightarrow> active p"
  proof (intro ballI impI)
    fix p
    assume p: "p \<in> set (planes (update (update st b) b))" and hp: "hex p \<in> hex ` set b"
    have "trackedEntries (planes (update (update st b) b)) (hex p)
            = (case latest (hex p) b of None \<Rightarrow> [] | Some s \<Rightarrow> [s\<lparr>active := True\<rparr>])"
      using hp by (simp add: update_def setPlanes_entries)
    moreover from p have "p \<in> set (trackedEntries (planes (update (update st b) b)) (hex p))"
      by (simp add: trackedEntries_def)
    ultimately show "active p" by (auto split: option.splits)
  qed
  have len: "length (trailOf (planeTrails (update (update st b) b)) h)
           = length (trailOf (planeTrails st) h) + 2 * length (filter (\<lambda>s. hex s = h) b)"
    if "\<forall>p \<in> set b. hex p \<notin> set objectPrototypeNames"
    using that by (simp add: update_trail_plain)
  from idem act len show ?thesis by blast
qed

theorem update_twice_witness:
  "planes (update (update initialState [snapA1, snapB2]) [snapA1, snapB2])
     = planes (update initialState [snapA1, snapB2]) \<and>
   snapA1\<lparr>active := True\<rparr> \<in> set (planes (update (update initialState [snapA1, snapB2]) [snapA1, snapB2])) \<and>
   hex (snapA1\<lparr>active := True\<rparr>) \<in> hex ` set [snapA1, snapB2] \<and>
   active (snapA1\<lparr>active := True\<rparr>) \<and>
   (hex snapA1 \<notin> set objectPrototypeNames \<and> hex snapB2 \<notin> set objectPrototypeNames) \<and>
   length (trailOf (planeTrails (update (update initialState [snapA1, snapB2]) [snapA1, snapB2])) ''A1'') = 2 \<and>
   planes (update (update (update initialState [snapA1]) []) [])
     = planes (update (update initialState [snapA1]) []) \<and>
   length (trailOf (planeTrails (update (update (update initialState [snapA1]) []) [])) ''A1'') = 1"
proof -
  note t1 = update_twice [of initialState "[snapA1, snapB2]" "''A1''"]
  note t2 = update_twice [of "update initialState [snapA1]" "[]" "''A1''"]
  have h1: "snapA1\<lparr>active := True\<rparr>
              \<in> set (planes (update (update initialState [snapA1, snapB2]) [snapA1, snapB2]))"
    by (simp add: reconcile_defs sample_defs)
  have h2: "hex (snapA1\<lparr>active := True\<rparr>) \<in> hex ` set [snapA1, snapB2]"
    by (simp add: sample_defs)
  have n: "hex snapA1 \<notin> set objectPrototypeNames" "hex snapB2 \<notin> set objectPrototypeNames"
    by (simp_all add: sample_defs objectPrototypeNames_def)
  then have plain: "\<forall>p \<in> set [snapA1, snapB2]. hex p \<notin> set objectPrototypeNames"
    by simp
  have z: "length (trailOf (planeTrails (initialState :: real AppState)) ''A1'') = 0"
    by (simp add: initialState_def trailOf_def)
  have o: "length (trailOf (planeTrails (update (initialState :: real AppState) [snapA1])) ''A1'') = 1"
    by (simp add: reconcile_defs sample_defs)
  have c: "length (filter (\<lambda>s. hex s = ''A1'') [snapA1, snapB2]) = 1"
    by (simp add: sample_defs)
  from t1 have idem1: "planes (update (update initialState [snapA1, snapB2]) [snapA1, snapB2])
                         = planes (update initialState [snapA1, snapB2])"
    by (rule conjunct1)
  from t1 h1 h2 have act: "active (snapA1\<lparr>active := True\<rparr>)" by blast
  from t1 plain have "length (trailOf (planeTrails
        (update (update initialState [snapA1, snapB2]) [snapA1, snapB2])) ''A1'')
      = length (trailOf (planeTrails (initialState :: real AppState)) ''A1'')
        + 2 * length (filter (\<lambda>s. hex s = ''A1'') [snapA1, snapB2])"
    by blast
  then have len1: "length (trailOf (planeTrails
        (update (update initialState [snapA1, snapB2]) [snapA1, snapB2])) ''A1'') = 2"
    by (simp only: z c)
  from t2 have idem2: "planes (update (update (update initialState [snapA1]) []) [])
                         = planes (update (update initialState [snapA1]) [])"
    by (rule conjunct1)
  from t2 have "length (trailOf (planeTrails (update (update (update initialState [snapA1]) []) [])) ''A1'')
      = length (trailOf (planeTrails (update (initialState :: real AppState) [snapA1])) ''A1'')
        + 2 * length (filter (\<lambda>s. hex s = ''A1'') [])"
    by simp
  then have len2: "length (trailOf (planeTrails
        (update (update (update initialState [snapA1]) []) [])) ''A1'') = 1"
    by (simp add: o)
  from idem1 h1 h2 act n len1 idem2 len2 show ?thesis by (intro conjI)
qed

text \<open>
  C7. When a batch holds several snapshots with one hex, the tracked entry for that hex
  is the last of them in the batch's order, with \<open>active\<close> set: for \<open>s\<close> in the batch
  with no later snapshot of the same hex, the hex has the one entry \<open>s\<close> made active.
\<close>

theorem duplicate_hex_last_wins:
  assumes "data = xs @ s # ys" and "hex s \<notin> hex ` set ys"
  shows "trackedEntries (planes (update st data)) (hex s) = [s\<lparr>active := True\<rparr>]"
proof -
  from assms have "latest (hex s) data = Some s"
    by (simp add: latest_last)
  moreover from assms(1) have "hex s \<in> hex ` set data" by simp
  ultimately show ?thesis
    by (simp add: update_def setPlanes_entries)
qed

theorem duplicate_hex_last_wins_witness:
  "[snapA1, snapB2, snapA1_later] = [snapA1, snapB2] @ snapA1_later # [] \<and>
   hex snapA1_later \<notin> hex ` set [] \<and>
   hex snapA1 = hex snapA1_later \<and> snapA1 \<noteq> snapA1_later \<and>
   trackedEntries (planes (update initialState [snapA1, snapB2, snapA1_later])) (hex snapA1_later)
     = [snapA1_later\<lparr>active := True\<rparr>]"
proof -
  have h1: "[snapA1, snapB2, snapA1_later] = [snapA1, snapB2] @ snapA1_later # []" by simp
  have h2: "hex snapA1_later \<notin> hex ` set []" by simp
  have h3: "hex snapA1 = hex snapA1_later \<and> snapA1 \<noteq> snapA1_later"
    by (simp add: sample_defs)
  show ?thesis
    using h1 h2 h3 duplicate_hex_last_wins [OF h1 h2, of initialState] by simp
qed

section \<open>Properties of the poll interval\<close>

text \<open>
  C9. The interval starts at 500. One change stores the converted input exactly when it
  is not NaN and is at least 100, and keeps the stored value otherwise. So after any
  sequence of changes the stored interval is a number (not NaN) that is at least 100.
\<close>

theorem interval_at_least_100:
  "initialInterval = Finite 500 \<and>
   handleIntervalChange toNumber cur s
     = (if \<not> isNaN (toNumber s) \<and> number_ge (toNumber s) (Finite 100) then toNumber s else cur) \<and>
   \<not> isNaN (foldl (handleIntervalChange toNumber) initialInterval inputs) \<and>
   number_ge (foldl (handleIntervalChange toNumber) initialInterval inputs) (Finite 100)"
proof -
  have step: "\<not> isNaN (handleIntervalChange toNumber u t) \<and>
              number_ge (handleIntervalChange toNumber u t) (Finite 100)"
    if "\<not> isNaN u \<and> number_ge u (Finite 100)" for u t
    using that by (simp add: handleIntervalChange_def Let_def)
  have inv: "\<not> isNaN (foldl (handleIntervalChange toNumber) u inputs) \<and>
             number_ge (foldl (handleIntervalChange toNumber) u inputs) (Finite 100)"
    if "\<not> isNaN u \<and> number_ge u (Finite 100)" for u
    using that
  proof (induction inputs arbitrary: u)
    case Nil
    then show ?case by simp
  next
    case (Cons t ts)
    from Cons.prems have "\<not> isNaN (handleIntervalChange toNumber u t) \<and>
              number_ge (handleIntervalChange toNumber u t) (Finite 100)"
      by (rule step)
    then show ?case using Cons.IH by simp
  qed
  have init: "\<not> isNaN initialInterval \<and> number_ge initialInterval (Finite 100)"
    by (simp add: initialInterval_def)
  from inv [OF init] show ?thesis
    by (simp add: initialInterval_def handleIntervalChange_def Let_def)
qed

theorem interval_at_least_100_witness:
  "foldl (handleIntervalChange sampleNumber) initialInterval [''50'', ''abc''] = Finite 500 \<and>
   foldl (handleIntervalChange sampleNumber) initialInterval [''50'', ''250'', ''abc''] = Finite 250 \<and>
   \<not> isNaN (foldl (handleIntervalChange sampleNumber) initialInterval [''50'', ''250'', ''abc'']) \<and>
   number_ge (foldl (handleIntervalChange sampleNumber) initialInterval [''50'', ''250'', ''abc'']) (Finite 100)"
  using interval_at_least_100 [of sampleNumber initialInterval "''50''" "[''50'', ''250'', ''abc'']"]
  by (simp add: handleIntervalChange_def sampleNumber_def initialInterval_def)

end
